theory Spec2Isabelle
  imports Main
begin

section \<open>The Hadiye service worker (sw.js)\<close>

text \<open>
  The worker is written against three capabilities of its host: the network
  (\<^verbatim>\<open>fetch\<close>), the cache storage (\<^verbatim>\<open>caches\<close>, a list of named caches in creation
  order, each an ordered list of request/response pairs) and the worker life cycle.
  The host's operations are modelled by their contract: \<^verbatim>\<open>open\<close> creates a cache that
  is absent, \<^verbatim>\<open>put\<close> replaces the entry of its key and refuses a response with status
  206 (partial content), \<^verbatim>\<open>caches.match\<close> searches every cache in creation order,
  \<^verbatim>\<open>cache.match\<close> searches one cache, \<^verbatim>\<open>addAll\<close> fetches every request and stores
  all of them or none. A request's identity is its URL (only
  GET requests reach a strategy); a relative URL such as \<^verbatim>\<open>/offline.html\<close> stands for
  its resolution against the worker's origin. Storage operations do not fail in this
  model, console output is left out, and a \<^verbatim>\<open>put\<close> that the code does not await is
  taken at its completion.
\<close>

subsection \<open>Requests, responses, promises\<close>

type_synonym url = string

record response =
  status :: nat
  body :: string

text \<open>\<^verbatim>\<open>response.ok\<close>: the status is in the range 200 to 299.\<close>

definition ok :: "response \<Rightarrow> bool" where
  "ok r = (200 \<le> status r \<and> status r \<le> 299)"

text \<open>\<^verbatim>\<open>new Response('Offline', { status: 503 })\<close>\<close>

definition offline_response :: response where
  "offline_response = \<lparr>status = 503, body = ''Offline''\<rparr>"

text \<open>
  A promise is fulfilled with a value or rejected with an error; \<^verbatim>\<open>fetch\<close> rejects
  with a TypeError when the transport fails, \<^verbatim>\<open>addAll\<close> with a TypeError when a
  fetch fails or a status is not ok or is 206, and with an InvalidStateError when its
  list names a URL twice.
\<close>

datatype error = TypeError | InvalidStateError

datatype 'a promise = Fulfilled 'a | Rejected error

text \<open>
  The network answers a URL with a response of any status, or fails at the transport
  level (the promise of \<^verbatim>\<open>fetch\<close> rejects).
\<close>

type_synonym network = "url \<Rightarrow> response promise"

text \<open>
  A request as the fetch listener reads it; \<open>protocol\<close>, \<open>hostname\<close> and \<open>pathname\<close>
  are the components of \<^verbatim>\<open>new URL(request.url)\<close>.
\<close>

record request =
  req_method :: string
  url :: url
  mode :: string
  protocol :: string
  hostname :: string
  pathname :: string

text \<open>The constants at the head of sw.js; a deployment changes them.\<close>

record config =
  CACHE_NAME :: string
  OFFLINE_URL :: url
  PRECACHE_ASSETS :: "url list"

definition hadiye :: config where
  "hadiye = \<lparr>
     CACHE_NAME = ''hadiye-v1.0.0'',
     OFFLINE_URL = ''/offline.html'',
     PRECACHE_ASSETS = [
       ''/'',
       ''/index.html'',
       ''/manifest.json'',
       ''/css/index.css'',
       ''/css/cibro.css'',
       ''/css/quran.css'',
       ''/css/tasbiix.css'',
       ''/js/main.js'',
       ''/js/modules/ramadan.js'',
       ''/js/modules/cibro.js'',
       ''/js/modules/quran.js'',
       ''/js/modules/tasbiix.js'',
       ''/js/modules/animations.js'',
       ''/data/surahs.json'',
       ''/data/reflections.json'',
       ''https://cdnjs.cloudflare.com/ajax/libs/gsap/3.12.5/gsap.min.js'',
       ''https://cdnjs.cloudflare.com/ajax/libs/gsap/3.12.5/ScrollTrigger.min.js'',
       ''https://fonts.googleapis.com/css2?family=Amiri+Quran&family=Scheherazade+New:wght@400;700&family=Inter:wght@300;400;500;600&display=swap'']\<rparr>"

subsection \<open>The cache storage\<close>

type_synonym cache = "(url \<times> response) list"

type_synonym cache_storage = "(string \<times> cache) list"

definition generation_names :: "cache_storage \<Rightarrow> string list" where
  "generation_names cs = map fst cs"

definition open_generation :: "string \<Rightarrow> cache_storage \<Rightarrow> cache_storage" where
  "open_generation name cs = (if name \<in> set (generation_names cs) then cs else cs @ [(name, [])])"

definition delete_generation :: "string \<Rightarrow> cache_storage \<Rightarrow> cache_storage" where
  "delete_generation name cs = filter (\<lambda>g. fst g \<noteq> name) cs"

text \<open>\<^verbatim>\<open>cache.match\<close> on the cache of one name; a cache that is gone has no entry.\<close>

definition match_in :: "string \<Rightarrow> url \<Rightarrow> cache_storage \<Rightarrow> response option" where
  "match_in name u cs = (case map_of cs name of None \<Rightarrow> None | Some c \<Rightarrow> map_of c u)"

text \<open>\<^verbatim>\<open>caches.match\<close>: the first cache, in creation order, that holds the key.\<close>

fun match_all :: "url \<Rightarrow> cache_storage \<Rightarrow> response option" where
  "match_all u [] = None"
| "match_all u (g # cs) = (case map_of (snd g) u of Some r \<Rightarrow> Some r | None \<Rightarrow> match_all u cs)"

text \<open>\<^verbatim>\<open>put\<close> removes the entry of the key and appends the new one.\<close>

definition put_entry :: "url \<Rightarrow> response \<Rightarrow> cache \<Rightarrow> cache" where
  "put_entry u r c = filter (\<lambda>e. fst e \<noteq> u) c @ [(u, r)]"

text \<open>A write through the handle of a cache that was deleted does not reach the storage.\<close>

definition put_in :: "string \<Rightarrow> url \<Rightarrow> response \<Rightarrow> cache_storage \<Rightarrow> cache_storage" where
  "put_in name u r cs = map (\<lambda>g. if fst g = name then (fst g, put_entry u r (snd g)) else g) cs"

subsection \<open>The worker's state and the host's operations\<close>

text \<open>Every call the worker makes to the host is recorded, in order.\<close>

datatype op =
    Fetch url
  | CachesOpen string
  | CachesMatch url
  | CachesKeys
  | CachesDelete string
  | CacheMatch string url
  | CachePut string url
  | CacheAddAll string "url list"
  | SkipWaiting
  | ClientsClaim

record sw_state =
  caches :: cache_storage
  trace :: "op list"

definition record_op :: "op \<Rightarrow> sw_state \<Rightarrow> sw_state" where
  "record_op x s = s\<lparr>trace := trace s @ [x]\<rparr>"

definition fetch :: "network \<Rightarrow> request \<Rightarrow> sw_state \<Rightarrow> response promise \<times> sw_state" where
  "fetch net req s = (net (url req), record_op (Fetch (url req)) s)"

text \<open>The handle of a cache is its name.\<close>

definition caches_open :: "string \<Rightarrow> sw_state \<Rightarrow> string \<times> sw_state" where
  "caches_open name s =
     (name, record_op (CachesOpen name) (s\<lparr>caches := open_generation name (caches s)\<rparr>))"

definition caches_match :: "url \<Rightarrow> sw_state \<Rightarrow> response option \<times> sw_state" where
  "caches_match u s = (match_all u (caches s), record_op (CachesMatch u) s)"

definition caches_keys :: "sw_state \<Rightarrow> string list \<times> sw_state" where
  "caches_keys s = (generation_names (caches s), record_op CachesKeys s)"

definition caches_delete :: "string \<Rightarrow> sw_state \<Rightarrow> sw_state" where
  "caches_delete name s =
     record_op (CachesDelete name) (s\<lparr>caches := delete_generation name (caches s)\<rparr>)"

definition cache_match :: "string \<Rightarrow> url \<Rightarrow> sw_state \<Rightarrow> response option \<times> sw_state" where
  "cache_match cache u s = (match_in cache u (caches s), record_op (CacheMatch cache u) s)"

text \<open>
  \<^verbatim>\<open>cache.put\<close> rejects a response with status 206 and stores nothing. The worker
  never awaits the promise of \<^verbatim>\<open>put\<close>, so the rejection reaches no handler: the call
  is recorded and the state is otherwise unchanged.
\<close>

definition cache_put :: "string \<Rightarrow> url \<Rightarrow> response \<Rightarrow> sw_state \<Rightarrow> sw_state" where
  "cache_put cache u r s =
     (if status r = 206 then record_op (CachePut cache u) s
      else record_op (CachePut cache u) (s\<lparr>caches := put_in cache u r (caches s)\<rparr>))"

subsection \<open>The strategies\<close>

text \<open>
  A strategy resolves to a response or to \<^verbatim>\<open>undefined\<close> (\<open>None\<close>), or rejects.
\<close>

type_synonym answer = "response option promise"

definition cacheFirst :: "config \<Rightarrow> network \<Rightarrow> request \<Rightarrow> sw_state \<Rightarrow> answer \<times> sw_state" where
  "cacheFirst cfg net req s =
     (let (cached, s1) = caches_match (url req) s in
      case cached of
        Some c \<Rightarrow> (Fulfilled (Some c), s1)
      | None \<Rightarrow>
          (let (fetched, s2) = fetch net req s1 in
           case fetched of
             Fulfilled resp \<Rightarrow>
               if ok resp then
                 (let (cache, s3) = caches_open (CACHE_NAME cfg) s2;
                      s4 = cache_put cache (url req) resp s3
                  in (Fulfilled (Some resp), s4))
               else (Fulfilled (Some resp), s2)
           | Rejected e \<Rightarrow> (Fulfilled (Some offline_response), s2)))"

definition networkFirst :: "config \<Rightarrow> network \<Rightarrow> request \<Rightarrow> sw_state \<Rightarrow> answer \<times> sw_state" where
  "networkFirst cfg net req s =
     (let (fetched, s1) = fetch net req s in
      case fetched of
        Fulfilled resp \<Rightarrow>
          if ok resp then
            (let (cache, s2) = caches_open (CACHE_NAME cfg) s1;
                 s3 = cache_put cache (url req) resp s2
             in (Fulfilled (Some resp), s3))
          else (Fulfilled (Some resp), s1)
      | Rejected e \<Rightarrow>
          (let (cached, s2) = caches_match (url req) s1 in
           case cached of
             Some c \<Rightarrow> (Fulfilled (Some c), s2)
           | None \<Rightarrow>
               if mode req = ''navigate'' then
                 (let (offlinePage, s3) = caches_match (OFFLINE_URL cfg) s2 in
                  case offlinePage of
                    Some p \<Rightarrow> (Fulfilled (Some p), s3)
                  | None \<Rightarrow>
                      (let (root, s4) = caches_match ''/'' s3 in (Fulfilled root, s4)))
               else (Fulfilled (Some offline_response), s2)))"

text \<open>
  The fetch is started whether or not the cache holds the entry; its \<^verbatim>\<open>then\<close>
  stores a response that is ok, its \<^verbatim>\<open>catch\<close> resolves to \<open>cached\<close>. The function
  returns \<^verbatim>\<open>cached || networkPromise\<close>. The state returned is the one reached when
  the fetch started by this call has settled.
\<close>

definition staleWhileRevalidate :: "config \<Rightarrow> network \<Rightarrow> request \<Rightarrow> sw_state \<Rightarrow> answer \<times> sw_state" where
  "staleWhileRevalidate cfg net req s =
     (let (cache, s1) = caches_open (CACHE_NAME cfg) s;
          (cached, s2) = cache_match cache (url req) s1;
          (fetched, s3) = fetch net req s2;
          (networkPromise, s4) =
            (case fetched of
               Fulfilled resp \<Rightarrow>
                 if ok resp then (Some resp, cache_put cache (url req) resp s3)
                 else (Some resp, s3)
             | Rejected e \<Rightarrow> (cached, s3))
      in case cached of
           Some c \<Rightarrow> (Fulfilled (Some c), s4)
         | None \<Rightarrow> (Fulfilled networkPromise, s4))"

subsection \<open>The fetch listener\<close>

text \<open>\<^verbatim>\<open>String.prototype.startsWith\<close>, \<^verbatim>\<open>String.prototype.includes\<close>, and the test \<^verbatim>\<open>/\.(js|css)$/\<close>.\<close>

definition startsWith :: "string \<Rightarrow> string \<Rightarrow> bool" where
  "startsWith s p = (take (length p) s = p)"

fun includes_str :: "string \<Rightarrow> string \<Rightarrow> bool" where
  "includes_str [] p = (p = [])"
| "includes_str (c # s) p = (startsWith (c # s) p \<or> includes_str s p)"

definition endsWith :: "string \<Rightarrow> string \<Rightarrow> bool" where
  "endsWith s p = startsWith (rev s) (rev p)"

definition is_js_or_css :: "string \<Rightarrow> bool" where
  "is_js_or_css path = (endsWith path ''.js'' \<or> endsWith path ''.css'')"

text \<open>
  The listener answers \<open>None\<close> when it returns without \<^verbatim>\<open>event.respondWith\<close>: the
  request then takes the browser's default network path.
\<close>

definition on_fetch :: "config \<Rightarrow> network \<Rightarrow> request \<Rightarrow> sw_state \<Rightarrow> answer option \<times> sw_state" where
  "on_fetch cfg net req s =
     (if req_method req \<noteq> ''GET'' then (None, s)
      else if \<not> startsWith (protocol req) ''http'' then (None, s)
      else
        (let (a, s') =
           (if startsWith (pathname req) ''/data/'' then cacheFirst cfg net req s
            else if is_js_or_css (pathname req) then staleWhileRevalidate cfg net req s
            else if includes_str (hostname req) ''fonts.googleapis.com'' \<or>
                    includes_str (hostname req) ''fonts.gstatic.com'' \<or>
                    includes_str (hostname req) ''cdnjs.cloudflare.com''
                 then cacheFirst cfg net req s
            else networkFirst cfg net req s)
         in (Some a, s')))"

subsection \<open>Install and activate\<close>

text \<open>
  \<^verbatim>\<open>cache.addAll\<close> fetches every URL of the list and rejects when a fetch fails or
  a status is not ok or is 206; only when every response has arrived are they put, in
  the order of the list, and a list that names a URL twice is refused then; so a
  rejected \<^verbatim>\<open>addAll\<close> stores nothing.
\<close>

fun fetch_all :: "network \<Rightarrow> url list \<Rightarrow> (url \<times> response) list promise" where
  "fetch_all net [] = Fulfilled []"
| "fetch_all net (u # us) =
     (case net u of
        Rejected e \<Rightarrow> Rejected TypeError
      | Fulfilled r \<Rightarrow>
          if ok r \<and> status r \<noteq> 206 then
            (case fetch_all net us of
               Rejected e \<Rightarrow> Rejected e
             | Fulfilled rs \<Rightarrow> Fulfilled ((u, r) # rs))
          else Rejected TypeError)"

definition put_all :: "string \<Rightarrow> (url \<times> response) list \<Rightarrow> cache_storage \<Rightarrow> cache_storage" where
  "put_all cache rs cs = fold (\<lambda>p. put_in cache (fst p) (snd p)) rs cs"

definition cache_addAll :: "network \<Rightarrow> string \<Rightarrow> url list \<Rightarrow> sw_state \<Rightarrow> unit promise \<times> sw_state" where
  "cache_addAll net cache us s =
     (let s1 = s\<lparr>trace := trace s @ CacheAddAll cache us # map Fetch us\<rparr> in
      case fetch_all net us of
        Fulfilled rs \<Rightarrow>
          if distinct us then (Fulfilled (), s1\<lparr>caches := put_all cache rs (caches s1)\<rparr>)
          else (Rejected InvalidStateError, s1)
      | Rejected e \<Rightarrow> (Rejected e, s1))"

text \<open>
  The promise handed to \<^verbatim>\<open>event.waitUntil\<close>: the \<^verbatim>\<open>catch\<close> at the end of the chain
  logs the error of \<^verbatim>\<open>addAll\<close> and resolves.
\<close>

definition on_install :: "config \<Rightarrow> network \<Rightarrow> sw_state \<Rightarrow> unit promise \<times> sw_state" where
  "on_install cfg net s =
     (let (cache, s1) = caches_open (CACHE_NAME cfg) s;
          (added, s2) = cache_addAll net cache (PRECACHE_ASSETS cfg) s1
      in case added of
           Fulfilled x \<Rightarrow> (Fulfilled (), record_op SkipWaiting s2)
         | Rejected e \<Rightarrow> (Fulfilled (), s2))"

definition on_activate :: "config \<Rightarrow> sw_state \<Rightarrow> unit promise \<times> sw_state" where
  "on_activate cfg s =
     (let (cacheNames, s1) = caches_keys s;
          s2 = fold caches_delete (filter (\<lambda>name. name \<noteq> CACHE_NAME cfg) cacheNames) s1
      in (Fulfilled (), record_op ClientsClaim s2))"

subsection \<open>Concrete inputs\<close>

text \<open>
  A first run (no cache yet), a network that is down, a network that answers every
  URL with 404, and one that answers every URL with 200 and the URL as body.
\<close>

definition first_run :: sw_state where
  "first_run = \<lparr>caches = [], trace = []\<rparr>"

definition net_down :: network where
  "net_down u = Rejected TypeError"

definition not_found :: response where
  "not_found = \<lparr>status = 404, body = ''Not Found''\<rparr>"

definition net_404 :: network where
  "net_404 u = Fulfilled not_found"

definition net_200 :: network where
  "net_200 u = Fulfilled \<lparr>status = 200, body = u\<rparr>"

text \<open>A network that answers every URL with a partial response, status 206.\<close>

definition partial_content :: response where
  "partial_content = \<lparr>status = 206, body = ''[114 su''\<rparr>"

definition net_206 :: network where
  "net_206 u = Fulfilled partial_content"

text \<open>Requests of each route, and two that the listener leaves alone.\<close>

definition data_request :: request where
  "data_request = \<lparr>req_method = ''GET'', url = ''https://hadiye.app/data/surahs.json'',
     mode = ''cors'', protocol = ''https:'', hostname = ''hadiye.app'',
     pathname = ''/data/surahs.json''\<rparr>"

definition script_request :: request where
  "script_request = \<lparr>req_method = ''GET'', url = ''https://hadiye.app/js/main.js'',
     mode = ''no-cors'', protocol = ''https:'', hostname = ''hadiye.app'',
     pathname = ''/js/main.js''\<rparr>"

definition page_request :: request where
  "page_request = \<lparr>req_method = ''GET'', url = ''https://hadiye.app/about'',
     mode = ''navigate'', protocol = ''https:'', hostname = ''hadiye.app'',
     pathname = ''/about''\<rparr>"

definition post_request :: request where
  "post_request = \<lparr>req_method = ''POST'', url = ''https://hadiye.app/data/surahs.json'',
     mode = ''cors'', protocol = ''https:'', hostname = ''hadiye.app'',
     pathname = ''/data/surahs.json''\<rparr>"

definition extension_request :: request where
  "extension_request = \<lparr>req_method = ''GET'', url = ''chrome-extension://abc/inject.js'',
     mode = ''no-cors'', protocol = ''chrome-extension:'', hostname = ''abc'',
     pathname = ''/inject.js''\<rparr>"

text \<open>A storage whose active cache holds the data file.\<close>

definition surahs :: response where
  "surahs = \<lparr>status = 200, body = ''[114 surahs]''\<rparr>"

definition warm :: sw_state where
  "warm = \<lparr>caches = [(''hadiye-v1.0.0'', [(''https://hadiye.app/data/surahs.json'', surahs)])],
     trace = []\<rparr>"

text \<open>
  A storage in which the cache of an older version was never deleted and holds the
  data file, while the active cache is empty.
\<close>

definition stale_surahs :: response where
  "stale_surahs = \<lparr>status = 200, body = ''[old surahs]''\<rparr>"

definition leftover :: sw_state where
  "leftover = \<lparr>caches = [(''hadiye-v0.9.0'', [(''https://hadiye.app/data/surahs.json'', stale_surahs)]),
                           (''hadiye-v1.0.0'', [])],
     trace = []\<rparr>"

text \<open>
  The scenarios of the specification: a manifest of two files of which the second
  cannot be fetched, installed as version v2 while v1 is in place.
\<close>

definition v2 :: config where
  "v2 = \<lparr>CACHE_NAME = ''v2'', OFFLINE_URL = ''/offline.html'',
          PRECACHE_ASSETS = [''/a.js'', ''/b.js'']\<rparr>"

definition net_b_fails :: network where
  "net_b_fails u = (if u = ''/a.js'' then Fulfilled \<lparr>status = 200, body = ''X''\<rparr> else Rejected TypeError)"

definition v1_active :: sw_state where
  "v1_active = \<lparr>caches = [(''v1'', [(''/a.js'', \<lparr>status = 200, body = ''W''\<rparr>)])], trace = []\<rparr>"

definition v1_v2 :: sw_state where
  "v1_v2 = \<lparr>caches = [(''v1'', [(''/a.js'', \<lparr>status = 200, body = ''W''\<rparr>)]),
                        (''v2'', [(''/a.js'', \<lparr>status = 200, body = ''X''\<rparr>)])], trace = []\<rparr>"

text \<open>A storage whose only cache is the active one, empty.\<close>

definition bare :: sw_state where
  "bare = \<lparr>caches = [(''hadiye-v1.0.0'', [])], trace = []\<rparr>"

subsection \<open>What a run of puts leaves in a cache\<close>

text \<open>
  The entries that a sequence of puts appends to a cache: each key once, at the
  place of its last put.
\<close>

fun last_writes :: "(url \<times> response) list \<Rightarrow> (url \<times> response) list" where
  "last_writes [] = []"
| "last_writes (p # ps) = (if fst p \<in> set (map fst ps) then last_writes ps else p # last_writes ps)"

section \<open>Properties of the cache storage\<close>

lemma map_of_put_entry_same: "map_of (put_entry u r c) u = Some r"
  by (induction c) (auto simp: put_entry_def)

lemma map_of_put_entry_other: "u' \<noteq> u \<Longrightarrow> map_of (put_entry u r c) u' = map_of c u'"
  by (induction c) (auto simp: put_entry_def)

lemma generation_names_put_in: "generation_names (put_in name u r cs) = generation_names cs"
  by (induction cs) (auto simp: generation_names_def put_in_def)

lemma map_of_put_in_other: "n \<noteq> name \<Longrightarrow> map_of (put_in name u r cs) n = map_of cs n"
  by (induction cs) (auto simp: put_in_def)

lemma map_of_put_in_same:
  "map_of (put_in name u r cs) name = map_option (put_entry u r) (map_of cs name)"
  by (induction cs) (auto simp: put_in_def)

lemma map_of_absent: "name \<notin> set (generation_names cs) \<Longrightarrow> map_of cs name = None"
  by (induction cs) (auto simp: generation_names_def)

lemma map_of_present: "name \<in> set (generation_names cs) \<Longrightarrow> \<exists>c. map_of cs name = Some c"
  by (induction cs) (auto simp: generation_names_def)

lemma map_of_open_generation:
  "map_of (open_generation name cs) n =
     (if n = name \<and> name \<notin> set (generation_names cs) then Some [] else map_of cs n)"
  by (simp add: open_generation_def map_add_def map_of_absent split: option.splits)

lemma match_in_open_generation: "match_in n u (open_generation name cs) = match_in n u cs"
  by (simp add: match_in_def map_of_open_generation map_of_absent)

lemma match_all_append:
  "match_all u (cs @ ds) = (case match_all u cs of Some r \<Rightarrow> Some r | None \<Rightarrow> match_all u ds)"
  by (induction cs) (auto split: option.splits)

lemma match_all_open_generation: "match_all u (open_generation name cs) = match_all u cs"
  by (auto simp: open_generation_def match_all_append split: option.splits)

lemma opened_has_name: "\<exists>c. map_of (open_generation name cs) name = Some c"
  using map_of_present [of name cs] by (auto simp: map_of_open_generation)

lemma match_in_put_in_opened:
  "match_in name u (put_in name u r (open_generation name cs)) = Some r"
  using opened_has_name [of name cs]
  by (auto simp: match_in_def map_of_put_in_same map_of_put_entry_same split: option.splits)

lemma caches_cache_put:
  "caches (cache_put name u r s) =
     (if status r = 206 then caches s else put_in name u r (caches s))"
  by (simp add: cache_put_def record_op_def)

lemma trace_cache_put: "trace (cache_put name u r s) = trace s @ [CachePut name u]"
  by (simp add: cache_put_def record_op_def)

lemma match_in_put_in_other:
  "n \<noteq> name \<or> u' \<noteq> u \<Longrightarrow> match_in n u' (put_in name u r cs) = match_in n u' cs"
  by (cases "n = name")
     (auto simp: match_in_def map_of_put_in_same map_of_put_in_other map_of_put_entry_other
           split: option.splits)

lemma delete_open_generation:
  "delete_generation name (open_generation name cs) = delete_generation name cs"
  by (simp add: delete_generation_def open_generation_def)

lemma delete_put_in:
  "delete_generation name (put_in name u r cs) = delete_generation name cs"
  by (induction cs) (auto simp: delete_generation_def put_in_def)

lemma open_generation_idem:
  "open_generation name (open_generation name cs) = open_generation name cs"
  by (simp add: open_generation_def generation_names_def)

lemma put_in_as_map:
  "fold (\<lambda>p. put_in name (fst p) (snd p)) ps cs =
     map (\<lambda>g. if fst g = name then (fst g, fold (\<lambda>p. put_entry (fst p) (snd p)) ps (snd g)) else g) cs"
proof (induction ps arbitrary: cs)
  case Nil
  show ?case by (induction cs) auto
next
  case (Cons p ps)
  have "fold (\<lambda>p. put_in name (fst p) (snd p)) (p # ps) cs =
        fold (\<lambda>p. put_in name (fst p) (snd p)) ps (put_in name (fst p) (snd p) cs)"
    by simp
  also have "\<dots> = map (\<lambda>g. if fst g = name
                 then (fst g, fold (\<lambda>p. put_entry (fst p) (snd p)) ps (snd g)) else g)
               (put_in name (fst p) (snd p) cs)"
    by (rule Cons.IH)
  also have "\<dots> = map (\<lambda>g. if fst g = name
                 then (fst g, fold (\<lambda>p. put_entry (fst p) (snd p)) (p # ps) (snd g)) else g) cs"
    by (induction cs) (auto simp: put_in_def)
  finally show ?case .
qed

lemma fold_put_entry:
  "fold (\<lambda>p. put_entry (fst p) (snd p)) ps c =
     filter (\<lambda>e. fst e \<notin> set (map fst ps)) c @ last_writes ps"
proof (induction ps arbitrary: c)
  case Nil
  show ?case by simp
next
  case (Cons p ps)
  have "fold (\<lambda>p. put_entry (fst p) (snd p)) (p # ps) c =
        fold (\<lambda>p. put_entry (fst p) (snd p)) ps (put_entry (fst p) (snd p) c)"
    by simp
  also have "\<dots> = filter (\<lambda>e. fst e \<notin> set (map fst ps)) (put_entry (fst p) (snd p) c)
                 @ last_writes ps"
    by (rule Cons.IH)
  also have "\<dots> = filter (\<lambda>e. fst e \<notin> set (map fst (p # ps))) c @ last_writes (p # ps)"
    by (auto simp: put_entry_def intro: filter_cong)
  finally show ?case .
qed

lemma keys_last_writes: "e \<in> set (last_writes ps) \<Longrightarrow> fst e \<in> set (map fst ps)"
  by (induction ps) (auto split: if_splits)

lemma filter_last_writes: "filter (\<lambda>e. fst e \<notin> set (map fst ps)) (last_writes ps) = []"
proof -
  have "\<forall>e \<in> set (last_writes ps). fst e \<in> set (map fst ps)"
    using keys_last_writes by blast
  then show ?thesis unfolding filter_empty_conv by blast
qed

lemma fold_put_entry_idem:
  "fold (\<lambda>p. put_entry (fst p) (snd p)) ps (fold (\<lambda>p. put_entry (fst p) (snd p)) ps c) =
   fold (\<lambda>p. put_entry (fst p) (snd p)) ps c"
proof -
  have "filter (\<lambda>e. fst e \<notin> set (map fst ps))
          (filter (\<lambda>e. fst e \<notin> set (map fst ps)) c @ last_writes ps) =
        filter (\<lambda>e. fst e \<notin> set (map fst ps)) c"
    unfolding filter_append filter_last_writes by simp
  then show ?thesis unfolding fold_put_entry by simp
qed

lemma put_all_idem: "put_all name ps (put_all name ps cs) = put_all name ps cs"
  by (simp add: put_all_def put_in_as_map fold_put_entry_idem comp_def)

lemma generation_names_put_all: "generation_names (put_all name ps cs) = generation_names cs"
  by (simp add: put_all_def put_in_as_map generation_names_def comp_def)

lemma open_generation_present:
  "name \<in> set (generation_names cs) \<Longrightarrow> open_generation name cs = cs"
  by (simp add: open_generation_def)

lemma name_opened: "name \<in> set (generation_names (open_generation name cs))"
  by (simp add: open_generation_def generation_names_def)

lemma fetch_all_rejects:
  "u \<in> set us \<Longrightarrow> (\<exists>e. net u = Rejected e) \<or> (\<exists>r. net u = Fulfilled r \<and> \<not> ok r) \<Longrightarrow>
     fetch_all net us = Rejected TypeError"
proof (induction us)
  case Nil
  then show ?case by simp
next
  case (Cons v us)
  show ?case
  proof (cases "v = u")
    case True
    with Cons.prems show ?thesis by auto
  next
    case False
    with Cons have "fetch_all net us = Rejected TypeError" by simp
    then show ?thesis by (simp split: promise.splits)
  qed
qed

lemma caches_fold_delete:
  "caches (fold caches_delete ns s) = filter (\<lambda>g. fst g \<notin> set ns) (caches s)"
proof (induction ns arbitrary: s)
  case Nil
  show ?case by simp
next
  case (Cons n ns)
  have "caches (fold caches_delete (n # ns) s) = caches (fold caches_delete ns (caches_delete n s))"
    by simp
  also have "\<dots> = filter (\<lambda>g. fst g \<notin> set ns) (caches (caches_delete n s))"
    by (rule Cons.IH)
  also have "\<dots> = filter (\<lambda>g. fst g \<notin> set (n # ns)) (caches s)"
    by (auto simp: caches_delete_def record_op_def delete_generation_def intro: filter_cong)
  finally show ?case .
qed

lemma caches_on_activate:
  "caches (snd (on_activate cfg s)) = filter (\<lambda>g. fst g = CACHE_NAME cfg) (caches s)"
proof -
  have "filter (\<lambda>g. fst g \<notin> set (filter (\<lambda>name. name \<noteq> CACHE_NAME cfg) (generation_names (caches s))))
          (caches s) = filter (\<lambda>g. fst g = CACHE_NAME cfg) (caches s)"
    by (rule filter_cong) (auto simp: generation_names_def)
  then show ?thesis
    by (simp add: on_activate_def caches_keys_def record_op_def caches_fold_delete Let_def)
qed

lemma map_of_filter_name: "map_of (filter (\<lambda>g. fst g = name) cs) name = map_of cs name"
  by (induction cs) auto

lemma caches_on_install:
  "caches (snd (on_install cfg net s)) =
     (case fetch_all net (PRECACHE_ASSETS cfg) of
        Fulfilled rs \<Rightarrow>
          if distinct (PRECACHE_ASSETS cfg)
          then put_all (CACHE_NAME cfg) rs (open_generation (CACHE_NAME cfg) (caches s))
          else open_generation (CACHE_NAME cfg) (caches s)
      | Rejected e \<Rightarrow> open_generation (CACHE_NAME cfg) (caches s))"
  by (simp add: on_install_def caches_open_def cache_addAll_def record_op_def Let_def
        split: promise.splits)

lemma filter_name_distinct:
  "distinct (generation_names cs) \<Longrightarrow> map_of cs name = Some c \<Longrightarrow>
     filter (\<lambda>g. fst g = name) cs = [(name, c)]"
proof (induction cs)
  case Nil
  then show ?case by simp
next
  case (Cons g cs)
  show ?case
  proof (cases "fst g = name")
    case True
    with Cons.prems have "name \<notin> set (generation_names cs)" and "g = (name, c)"
      by (auto simp: generation_names_def)
    then show ?thesis
      by (auto simp: generation_names_def filter_empty_conv)
  next
    case False
    with Cons show ?thesis by (auto simp: generation_names_def)
  qed
qed

lemma names_filter_name:
  "name \<in> set (generation_names cs) \<Longrightarrow>
     set (generation_names (filter (\<lambda>g. fst g = name) cs)) = {name}"
  by (auto simp: generation_names_def)

section \<open>Cache-First\<close>




section \<open>The fetch listener\<close>

text \<open>
  C7. A request whose method is not GET, or whose protocol does not pass the listener's
  test for a web request protocol (the protocol string starts with http), is not
  answered by the worker: the listener returns without \<^verbatim>\<open>respondWith\<close>, makes no
  call to the cache storage or to the network, and leaves the state as it was.
\<close>

theorem on_fetch_bypass:
  "req_method req \<noteq> ''GET'' \<or> \<not> startsWith (protocol req) ''http'' \<Longrightarrow>
     on_fetch cfg net req s = (None, s)"
  by (auto simp: on_fetch_def)

theorem on_fetch_bypass_witness:
  "req_method post_request \<noteq> ''GET''
   \<and> on_fetch hadiye net_200 post_request warm = (None, warm)
   \<and> \<not> startsWith (protocol extension_request) ''http''
   \<and> on_fetch hadiye net_200 extension_request warm = (None, warm)"
proof -
  have m: "req_method post_request \<noteq> ''GET''"
    by (simp add: post_request_def)
  have p: "\<not> startsWith (protocol extension_request) ''http''"
    by (simp add: extension_request_def startsWith_def)
  show ?thesis
    using m p on_fetch_bypass [of post_request hadiye net_200 warm]
      on_fetch_bypass [of extension_request hadiye net_200 warm]
    by blast
qed

section \<open>Responses with an error status\<close>

text \<open>
  C3, as the claim states it, fails: a response that the network delivers with status
  404 is returned as it is by Cache-First and by Network-First, but neither stores it;
  after the request the storage holds no entry for it.
\<close>

theorem error_status_not_cached:
  "net_404 (url data_request) = Fulfilled not_found
   \<and> \<not> ok not_found
   \<and> fst (cacheFirst hadiye net_404 data_request first_run) = Fulfilled (Some not_found)
   \<and> match_all (url data_request) (caches (snd (cacheFirst hadiye net_404 data_request first_run))) = None
   \<and> fst (networkFirst hadiye net_404 page_request first_run) = Fulfilled (Some not_found)
   \<and> match_all (url page_request) (caches (snd (networkFirst hadiye net_404 page_request first_run))) = None"
  by (simp add: cacheFirst_def networkFirst_def caches_match_def fetch_def record_op_def
        net_404_def not_found_def ok_def first_run_def)

text \<open>
  C3, amended. When the fetch completes with a status that is not ok (outside 200 to
  299), Network-First returns that response as it is and Cache-First does so when the
  storage has no entry for the request; in both the storage is left exactly as it
  was: the response is not stored and no cache is opened.
\<close>

theorem error_status_returned_unstored:
  "net (url req) = Fulfilled r \<Longrightarrow> \<not> ok r \<Longrightarrow>
     networkFirst cfg net req s = (Fulfilled (Some r), s\<lparr>trace := trace s @ [Fetch (url req)]\<rparr>)
     \<and> caches (snd (cacheFirst cfg net req s)) = caches s
     \<and> (match_all (url req) (caches s) = None \<longrightarrow>
          cacheFirst cfg net req s =
            (Fulfilled (Some r),
             s\<lparr>trace := trace s @ [CachesMatch (url req), Fetch (url req)]\<rparr>))"
  by (simp add: cacheFirst_def networkFirst_def caches_match_def fetch_def record_op_def
        split: option.splits)

theorem error_status_returned_unstored_witness:
  "net_404 (url page_request) = Fulfilled not_found
   \<and> \<not> ok not_found
   \<and> match_all (url page_request) (caches warm) = None
   \<and> networkFirst hadiye net_404 page_request warm =
        (Fulfilled (Some not_found), warm\<lparr>trace := [Fetch (url page_request)]\<rparr>)
   \<and> cacheFirst hadiye net_404 page_request warm =
        (Fulfilled (Some not_found),
         warm\<lparr>trace := [CachesMatch (url page_request), Fetch (url page_request)]\<rparr>)"
proof -
  have n: "net_404 (url page_request) = Fulfilled not_found"
    by (simp add: net_404_def)
  have k: "\<not> ok not_found"
    by (simp add: ok_def not_found_def)
  have m: "match_all (url page_request) (caches warm) = None"
    by (simp add: warm_def page_request_def)
  have t: "trace warm = []"
    by (simp add: warm_def)
  show ?thesis
    using error_status_returned_unstored [where net = net_404 and req = page_request
        and r = not_found and cfg = hadiye and s = warm] n k m t
    by simp
qed

section \<open>Network-First\<close>

text \<open>
  C2. A navigation whose fetch fails while the storage holds neither the page, nor the
  offline document, nor the root document: the code looks up the three keys in that
  order and then returns the result of the last lookup, which is \<^verbatim>\<open>undefined\<close>; the
  answer is not the response with status 503.
\<close>

theorem networkFirst_navigation_nothing_cached:
  "mode page_request = ''navigate''
   \<and> net_down (url page_request) = Rejected TypeError
   \<and> networkFirst hadiye net_down page_request first_run =
       (Fulfilled None,
        \<lparr>caches = [],
         trace = [Fetch (url page_request), CachesMatch (url page_request),
                  CachesMatch ''/offline.html'', CachesMatch ''/'']\<rparr>)
   \<and> fst (networkFirst hadiye net_down page_request first_run) \<noteq> Fulfilled (Some offline_response)"
  by (simp add: networkFirst_def caches_match_def fetch_def record_op_def net_down_def
        page_request_def first_run_def hadiye_def)

section \<open>Stale-While-Revalidate\<close>

text \<open>
  C5. A script that is not in the active cache, requested while the network is down:
  the \<^verbatim>\<open>catch\<close> of the fetch resolves to \<open>cached\<close>, which is \<^verbatim>\<open>undefined\<close>, and
  that is the answer; it is not the response with status 503.
\<close>

theorem staleWhileRevalidate_nothing_cached:
  "match_in (CACHE_NAME hadiye) (url script_request) (caches first_run) = None
   \<and> net_down (url script_request) = Rejected TypeError
   \<and> fst (staleWhileRevalidate hadiye net_down script_request first_run) = Fulfilled None
   \<and> fst (staleWhileRevalidate hadiye net_down script_request first_run) \<noteq>
       Fulfilled (Some offline_response)"
  by (simp add: staleWhileRevalidate_def caches_open_def cache_match_def fetch_def
        record_op_def net_down_def first_run_def hadiye_def match_in_def open_generation_def
        generation_names_def)

text \<open>
  C10. Stale-While-Revalidate and the storage. When the fetch fails at the transport
  level or completes with a status that is not ok, every entry of every cache is what
  it was before the request (the only change to the storage is that the cache named
  by \<open>CACHE_NAME\<close> is opened, empty, if it did not exist). The same holds when the
  fetch completes with status 206, which the host's \<^verbatim>\<open>put\<close> refuses. When the fetch
  completes with an ok status other than 206, the response becomes the entry of the
  request in that cache and every other entry is what it was.
\<close>

theorem staleWhileRevalidate_store:
  "((\<exists>e. net (url req) = Rejected e) \<or> (\<exists>r. net (url req) = Fulfilled r \<and> \<not> ok r) \<longrightarrow>
      caches (snd (staleWhileRevalidate cfg net req s)) = open_generation (CACHE_NAME cfg) (caches s)
      \<and> (\<forall>name u. match_in name u (caches (snd (staleWhileRevalidate cfg net req s))) =
                   match_in name u (caches s)))
   \<and> (\<forall>r. net (url req) = Fulfilled r \<and> status r = 206 \<longrightarrow>
        caches (snd (staleWhileRevalidate cfg net req s)) = open_generation (CACHE_NAME cfg) (caches s)
        \<and> (\<forall>name u. match_in name u (caches (snd (staleWhileRevalidate cfg net req s))) =
                     match_in name u (caches s)))
   \<and> (\<forall>r. net (url req) = Fulfilled r \<and> ok r \<and> status r \<noteq> 206 \<longrightarrow>
        match_in (CACHE_NAME cfg) (url req) (caches (snd (staleWhileRevalidate cfg net req s))) = Some r
        \<and> (\<forall>name u. name \<noteq> CACHE_NAME cfg \<or> u \<noteq> url req \<longrightarrow>
              match_in name u (caches (snd (staleWhileRevalidate cfg net req s))) =
              match_in name u (caches s)))"
proof -
  have failed: "(\<exists>e. net (url req) = Rejected e) \<or> (\<exists>r. net (url req) = Fulfilled r \<and> \<not> ok r) \<longrightarrow>
      caches (snd (staleWhileRevalidate cfg net req s)) = open_generation (CACHE_NAME cfg) (caches s)
      \<and> (\<forall>name u. match_in name u (caches (snd (staleWhileRevalidate cfg net req s))) =
                   match_in name u (caches s))"
    by (auto simp: staleWhileRevalidate_def caches_open_def cache_match_def fetch_def
          record_op_def match_in_open_generation split: prod.splits option.splits)
  have partial: "\<forall>r. net (url req) = Fulfilled r \<and> status r = 206 \<longrightarrow>
        caches (snd (staleWhileRevalidate cfg net req s)) = open_generation (CACHE_NAME cfg) (caches s)
        \<and> (\<forall>name u. match_in name u (caches (snd (staleWhileRevalidate cfg net req s))) =
                     match_in name u (caches s))"
    by (auto simp: staleWhileRevalidate_def caches_open_def cache_match_def fetch_def
          cache_put_def record_op_def match_in_open_generation
          split: prod.splits option.splits)
  have stored: "\<forall>r. net (url req) = Fulfilled r \<and> ok r \<and> status r \<noteq> 206 \<longrightarrow>
        match_in (CACHE_NAME cfg) (url req) (caches (snd (staleWhileRevalidate cfg net req s))) = Some r
        \<and> (\<forall>name u. name \<noteq> CACHE_NAME cfg \<or> u \<noteq> url req \<longrightarrow>
              match_in name u (caches (snd (staleWhileRevalidate cfg net req s))) =
              match_in name u (caches s))"
    by (auto simp: staleWhileRevalidate_def caches_open_def cache_match_def fetch_def
          cache_put_def record_op_def match_in_open_generation match_in_put_in_opened
          match_in_put_in_other split: prod.splits option.splits)
  show ?thesis using failed partial stored by blast
qed

theorem staleWhileRevalidate_store_witness:
  "net_down (url script_request) = Rejected TypeError
   \<and> caches (snd (staleWhileRevalidate hadiye net_down script_request warm)) = caches warm
   \<and> match_in ''hadiye-v1.0.0'' (url script_request)
        (caches (snd (staleWhileRevalidate hadiye net_down script_request warm))) = None
   \<and> net_404 (url script_request) = Fulfilled not_found \<and> \<not> ok not_found
   \<and> match_in ''hadiye-v1.0.0'' (url script_request)
        (caches (snd (staleWhileRevalidate hadiye net_404 script_request warm))) = None
   \<and> net_206 (url script_request) = Fulfilled partial_content \<and> status partial_content = 206
   \<and> match_in ''hadiye-v1.0.0'' (url script_request)
        (caches (snd (staleWhileRevalidate hadiye net_206 script_request warm))) = None
   \<and> net_200 (url script_request) = Fulfilled \<lparr>status = 200, body = url script_request\<rparr>
   \<and> ok \<lparr>status = 200, body = url script_request\<rparr>
   \<and> status \<lparr>status = 200, body = url script_request\<rparr> \<noteq> 206
   \<and> match_in (CACHE_NAME hadiye) (url script_request)
        (caches (snd (staleWhileRevalidate hadiye net_200 script_request warm))) =
       Some \<lparr>status = 200, body = url script_request\<rparr>
   \<and> match_in ''hadiye-v1.0.0'' (url data_request)
        (caches (snd (staleWhileRevalidate hadiye net_200 script_request warm))) = Some surahs"
proof -
  have down: "net_down (url script_request) = Rejected TypeError"
    by (simp add: net_down_def)
  have nf: "net_404 (url script_request) = Fulfilled not_found \<and> \<not> ok not_found"
    by (simp add: net_404_def not_found_def ok_def)
  have pc: "net_206 (url script_request) = Fulfilled partial_content \<and> status partial_content = 206"
    by (simp add: net_206_def partial_content_def)
  have up: "net_200 (url script_request) = Fulfilled \<lparr>status = 200, body = url script_request\<rparr>
            \<and> ok \<lparr>status = 200, body = url script_request\<rparr>
            \<and> status \<lparr>status = 200, body = url script_request\<rparr> \<noteq> 206"
    by (simp add: net_200_def ok_def)
  have opened: "open_generation (CACHE_NAME hadiye) (caches warm) = caches warm"
    by (simp add: open_generation_def generation_names_def hadiye_def warm_def)
  have before: "match_in ''hadiye-v1.0.0'' (url script_request) (caches warm) = None
                \<and> match_in ''hadiye-v1.0.0'' (url data_request) (caches warm) = Some surahs"
    by (simp add: match_in_def warm_def script_request_def data_request_def)
  have other: "''hadiye-v1.0.0'' \<noteq> CACHE_NAME hadiye \<or> url data_request \<noteq> url script_request"
    by (simp add: data_request_def script_request_def)
  have a: "caches (snd (staleWhileRevalidate hadiye net_down script_request warm)) = caches warm
           \<and> match_in ''hadiye-v1.0.0'' (url script_request)
                (caches (snd (staleWhileRevalidate hadiye net_down script_request warm))) = None"
    using staleWhileRevalidate_store [where net = net_down and req = script_request
        and cfg = hadiye and s = warm] down opened before
    by simp
  have b: "match_in ''hadiye-v1.0.0'' (url script_request)
             (caches (snd (staleWhileRevalidate hadiye net_404 script_request warm))) = None"
    using staleWhileRevalidate_store [where net = net_404 and req = script_request
        and cfg = hadiye and s = warm] nf before opened
    by simp
  have p: "match_in ''hadiye-v1.0.0'' (url script_request)
             (caches (snd (staleWhileRevalidate hadiye net_206 script_request warm))) = None"
    using staleWhileRevalidate_store [where net = net_206 and req = script_request
        and cfg = hadiye and s = warm] pc before opened
    by simp
  have c: "match_in (CACHE_NAME hadiye) (url script_request)
             (caches (snd (staleWhileRevalidate hadiye net_200 script_request warm))) =
           Some \<lparr>status = 200, body = url script_request\<rparr>
         \<and> match_in ''hadiye-v1.0.0'' (url data_request)
             (caches (snd (staleWhileRevalidate hadiye net_200 script_request warm))) = Some surahs"
    using staleWhileRevalidate_store [where net = net_200 and req = script_request
        and cfg = hadiye and s = warm] up before other
    by simp
  show ?thesis using down nf pc up a b p c by blast
qed

section \<open>Which caches the strategies read and write\<close>

text \<open>
  C9, as the claim states it, fails: with the network down and the active cache
  empty, Cache-First and Network-First answer a request from the cache of an older
  version that is still in the storage, because \<^verbatim>\<open>caches.match\<close> searches every
  cache.
\<close>

theorem strategies_read_leftover_generation:
  "match_in (CACHE_NAME hadiye) (url data_request) (caches leftover) = None
   \<and> net_down (url data_request) = Rejected TypeError
   \<and> cacheFirst hadiye net_down data_request leftover =
       (Fulfilled (Some stale_surahs), leftover\<lparr>trace := [CachesMatch (url data_request)]\<rparr>)
   \<and> fst (networkFirst hadiye net_down data_request leftover) = Fulfilled (Some stale_surahs)"
  by (simp add: cacheFirst_def networkFirst_def caches_match_def fetch_def record_op_def
        net_down_def leftover_def data_request_def hadiye_def match_in_def)

text \<open>
  C9, amended. No strategy changes a cache other than the one named by \<open>CACHE_NAME\<close>:
  the storage without that cache is the same before and after the request, so every
  write goes into the active generation. Stale-While-Revalidate reads only that cache:
  its answer is the same on two storages that agree on it. Cache-First and
  Network-First read with \<^verbatim>\<open>caches.match\<close>, which searches every cache in creation
  order: their answer is the same on two storages on which that search agrees (for
  Cache-First on the request, for Network-First on the request, the offline document
  and the root document).
\<close>

theorem strategies_scope:
  "delete_generation (CACHE_NAME cfg) (caches (snd (cacheFirst cfg net req s))) =
     delete_generation (CACHE_NAME cfg) (caches s)
   \<and> delete_generation (CACHE_NAME cfg) (caches (snd (networkFirst cfg net req s))) =
     delete_generation (CACHE_NAME cfg) (caches s)
   \<and> delete_generation (CACHE_NAME cfg) (caches (snd (staleWhileRevalidate cfg net req s))) =
     delete_generation (CACHE_NAME cfg) (caches s)
   \<and> (map_of (caches s') (CACHE_NAME cfg) = map_of (caches s) (CACHE_NAME cfg) \<longrightarrow>
        fst (staleWhileRevalidate cfg net req s') = fst (staleWhileRevalidate cfg net req s))
   \<and> (match_all (url req) (caches s') = match_all (url req) (caches s) \<longrightarrow>
        fst (cacheFirst cfg net req s') = fst (cacheFirst cfg net req s))
   \<and> (match_all (url req) (caches s') = match_all (url req) (caches s)
        \<and> match_all (OFFLINE_URL cfg) (caches s') = match_all (OFFLINE_URL cfg) (caches s)
        \<and> match_all ''/'' (caches s') = match_all ''/'' (caches s) \<longrightarrow>
        fst (networkFirst cfg net req s') = fst (networkFirst cfg net req s))"
proof -
  have w1: "delete_generation (CACHE_NAME cfg) (caches (snd (cacheFirst cfg net req s))) =
     delete_generation (CACHE_NAME cfg) (caches s)"
    by (simp add: cacheFirst_def caches_match_def fetch_def caches_open_def cache_put_def
          record_op_def delete_put_in delete_open_generation
          split: option.splits promise.splits)
  have w2: "delete_generation (CACHE_NAME cfg) (caches (snd (networkFirst cfg net req s))) =
     delete_generation (CACHE_NAME cfg) (caches s)"
    by (simp add: networkFirst_def caches_match_def fetch_def caches_open_def cache_put_def
          record_op_def delete_put_in delete_open_generation
          split: option.splits promise.splits)
  have w3: "delete_generation (CACHE_NAME cfg) (caches (snd (staleWhileRevalidate cfg net req s))) =
     delete_generation (CACHE_NAME cfg) (caches s)"
    by (simp add: staleWhileRevalidate_def caches_open_def cache_match_def fetch_def
          cache_put_def record_op_def delete_put_in delete_open_generation
          split: option.splits promise.splits)
  have r1: "map_of (caches s') (CACHE_NAME cfg) = map_of (caches s) (CACHE_NAME cfg) \<longrightarrow>
        fst (staleWhileRevalidate cfg net req s') = fst (staleWhileRevalidate cfg net req s)"
  proof
    assume "map_of (caches s') (CACHE_NAME cfg) = map_of (caches s) (CACHE_NAME cfg)"
    then have "match_in (CACHE_NAME cfg) (url req) (caches s') =
               match_in (CACHE_NAME cfg) (url req) (caches s)"
      by (simp add: match_in_def)
    then show "fst (staleWhileRevalidate cfg net req s') = fst (staleWhileRevalidate cfg net req s)"
      by (simp add: staleWhileRevalidate_def caches_open_def cache_match_def fetch_def
            cache_put_def record_op_def match_in_open_generation
            split: option.splits promise.splits)
  qed
  have r2: "match_all (url req) (caches s') = match_all (url req) (caches s) \<longrightarrow>
        fst (cacheFirst cfg net req s') = fst (cacheFirst cfg net req s)"
    by (simp add: cacheFirst_def caches_match_def fetch_def caches_open_def cache_put_def
          record_op_def split: option.splits promise.splits)
  have r3: "match_all (url req) (caches s') = match_all (url req) (caches s)
        \<and> match_all (OFFLINE_URL cfg) (caches s') = match_all (OFFLINE_URL cfg) (caches s)
        \<and> match_all ''/'' (caches s') = match_all ''/'' (caches s) \<longrightarrow>
        fst (networkFirst cfg net req s') = fst (networkFirst cfg net req s)"
    by (simp add: networkFirst_def caches_match_def fetch_def caches_open_def cache_put_def
          record_op_def split: option.splits promise.splits)
  show ?thesis using w1 w2 w3 r1 r2 r3 by blast
qed

theorem strategies_scope_witness:
  "map_of (caches leftover) (CACHE_NAME hadiye) = map_of (caches bare) (CACHE_NAME hadiye)
   \<and> fst (staleWhileRevalidate hadiye net_down data_request leftover) =
     fst (staleWhileRevalidate hadiye net_down data_request bare)
   \<and> match_all (url page_request) (caches leftover) = match_all (url page_request) (caches bare)
   \<and> match_all (OFFLINE_URL hadiye) (caches leftover) = match_all (OFFLINE_URL hadiye) (caches bare)
   \<and> match_all ''/'' (caches leftover) = match_all ''/'' (caches bare)
   \<and> fst (cacheFirst hadiye net_down page_request leftover) =
     fst (cacheFirst hadiye net_down page_request bare)
   \<and> fst (networkFirst hadiye net_down page_request leftover) =
     fst (networkFirst hadiye net_down page_request bare)"
proof -
  have a: "map_of (caches leftover) (CACHE_NAME hadiye) = map_of (caches bare) (CACHE_NAME hadiye)"
    by (simp add: leftover_def bare_def hadiye_def)
  have b: "match_all (url page_request) (caches leftover) = match_all (url page_request) (caches bare)"
    by (simp add: leftover_def bare_def page_request_def)
  have c: "match_all (OFFLINE_URL hadiye) (caches leftover) = match_all (OFFLINE_URL hadiye) (caches bare)"
    by (simp add: leftover_def bare_def hadiye_def)
  have d: "match_all ''/'' (caches leftover) = match_all ''/'' (caches bare)"
    by (simp add: leftover_def bare_def)
  show ?thesis
    using a b c d
      strategies_scope [where cfg = hadiye and net = net_down and req = data_request
        and s = bare and s' = leftover]
      strategies_scope [where cfg = hadiye and net = net_down and req = page_request
        and s = bare and s' = leftover]
    by blast
qed

section \<open>Install\<close>

text \<open>
  C1, as the claim states it, fails: on a first run with the manifest of two files of
  which the second cannot be fetched, the storage has no cache before Install and the
  cache of the version afterwards; with version v1 in place, the storage has both
  afterwards. \<^verbatim>\<open>caches.open\<close> runs before \<^verbatim>\<open>addAll\<close> and nothing deletes the cache
  when \<^verbatim>\<open>addAll\<close> rejects.
\<close>

theorem install_failure_creates_generation:
  "''/b.js'' \<in> set (PRECACHE_ASSETS v2)
   \<and> net_b_fails ''/b.js'' = Rejected TypeError
   \<and> generation_names (caches first_run) = []
   \<and> generation_names (caches (snd (on_install v2 net_b_fails first_run))) = [''v2'']
   \<and> generation_names (caches v1_active) = [''v1'']
   \<and> generation_names (caches (snd (on_install v2 net_b_fails v1_active))) = [''v1'', ''v2'']"
  by (simp add: on_install_def caches_open_def cache_addAll_def record_op_def Let_def
        open_generation_def generation_names_def v2_def net_b_fails_def first_run_def
        v1_active_def ok_def)

text \<open>
  C1, amended. When at least one fetch of the manifest fails (at the transport level or
  with a status that is not ok), Install stores no entry: the storage afterwards is the
  storage before, with the cache named by \<open>CACHE_NAME\<close> added, empty, at the end if it
  did not exist. Every cache that existed keeps its entries, and every lookup, in one
  cache or through \<^verbatim>\<open>caches.match\<close>, answers as before; no partly filled cache exists.
\<close>

theorem install_failure_stores_nothing:
  "\<exists>u \<in> set (PRECACHE_ASSETS cfg). (\<exists>e. net u = Rejected e) \<or> (\<exists>r. net u = Fulfilled r \<and> \<not> ok r) \<Longrightarrow>
     caches (snd (on_install cfg net s)) =
       (if CACHE_NAME cfg \<in> set (generation_names (caches s)) then caches s
        else caches s @ [(CACHE_NAME cfg, [])])
     \<and> (\<forall>name u. match_in name u (caches (snd (on_install cfg net s))) = match_in name u (caches s))
     \<and> (\<forall>u. match_all u (caches (snd (on_install cfg net s))) = match_all u (caches s))"
proof -
  assume "\<exists>u \<in> set (PRECACHE_ASSETS cfg). (\<exists>e. net u = Rejected e) \<or> (\<exists>r. net u = Fulfilled r \<and> \<not> ok r)"
  then have "fetch_all net (PRECACHE_ASSETS cfg) = Rejected TypeError"
    using fetch_all_rejects by blast
  then have "caches (snd (on_install cfg net s)) = open_generation (CACHE_NAME cfg) (caches s)"
    by (simp add: caches_on_install)
  then show ?thesis
    by (simp add: match_in_open_generation match_all_open_generation)
       (simp add: open_generation_def)
qed

theorem install_failure_stores_nothing_witness:
  "''/b.js'' \<in> set (PRECACHE_ASSETS v2)
   \<and> net_b_fails ''/b.js'' = Rejected TypeError
   \<and> caches (snd (on_install v2 net_b_fails v1_active)) =
       [(''v1'', [(''/a.js'', \<lparr>status = 200, body = ''W''\<rparr>)]), (''v2'', [])]
   \<and> match_all ''/a.js'' (caches (snd (on_install v2 net_b_fails v1_active))) =
       Some \<lparr>status = 200, body = ''W''\<rparr>"
proof -
  have m: "''/b.js'' \<in> set (PRECACHE_ASSETS v2)"
    by (simp add: v2_def)
  have f: "net_b_fails ''/b.js'' = Rejected TypeError"
    by (simp add: net_b_fails_def)
  have h: "\<exists>u \<in> set (PRECACHE_ASSETS v2).
             (\<exists>e. net_b_fails u = Rejected e) \<or> (\<exists>r. net_b_fails u = Fulfilled r \<and> \<not> ok r)"
    using m f by blast
  have "caches (snd (on_install v2 net_b_fails v1_active)) =
          [(''v1'', [(''/a.js'', \<lparr>status = 200, body = ''W''\<rparr>)]), (''v2'', [])]
        \<and> match_all ''/a.js'' (caches (snd (on_install v2 net_b_fails v1_active))) =
          Some \<lparr>status = 200, body = ''W''\<rparr>"
    using install_failure_stores_nothing [OF h, of v1_active]
    by (simp add: v1_active_def v2_def generation_names_def)
  then show ?thesis using m f by blast
qed

text \<open>
  C8. Install run twice, with the same manifest, the same version tag and a network
  that answers each URL the same way both times, leaves the storage that Install run
  once leaves: the same caches with the same entries in the same order.
\<close>

theorem install_idempotent:
  "caches (snd (on_install cfg net (snd (on_install cfg net s)))) =
   caches (snd (on_install cfg net s))"
proof (cases "fetch_all net (PRECACHE_ASSETS cfg)")
  case (Fulfilled rs)
  have "open_generation (CACHE_NAME cfg)
          (put_all (CACHE_NAME cfg) rs (open_generation (CACHE_NAME cfg) (caches s))) =
        put_all (CACHE_NAME cfg) rs (open_generation (CACHE_NAME cfg) (caches s))"
    by (rule open_generation_present) (simp add: generation_names_put_all name_opened)
  with Fulfilled show ?thesis
    by (simp add: caches_on_install put_all_idem open_generation_idem)
next
  case (Rejected e)
  then show ?thesis
    by (simp add: caches_on_install open_generation_idem)
qed

section \<open>Activate\<close>

text \<open>
  C6. Activate deletes every cache whose name is not \<open>CACHE_NAME\<close> and no other: the
  storage afterwards is the storage before restricted to that name. When the cache of
  the current version exists, as it does after Install (which opens it on every run),
  the set of cache names afterwards is the singleton of \<open>CACHE_NAME\<close> and that cache
  has the entries it had; with distinct names the storage is that one cache.
\<close>

theorem activate_collects_garbage:
  "caches (snd (on_activate cfg s)) = filter (\<lambda>g. fst g = CACHE_NAME cfg) (caches s)
   \<and> (CACHE_NAME cfg \<in> set (generation_names (caches s)) \<longrightarrow>
        set (generation_names (caches (snd (on_activate cfg s)))) = {CACHE_NAME cfg}
        \<and> map_of (caches (snd (on_activate cfg s))) (CACHE_NAME cfg) =
          map_of (caches s) (CACHE_NAME cfg))
   \<and> (\<forall>c. distinct (generation_names (caches s)) \<and> map_of (caches s) (CACHE_NAME cfg) = Some c \<longrightarrow>
        caches (snd (on_activate cfg s)) = [(CACHE_NAME cfg, c)])
   \<and> set (generation_names (caches (snd (on_activate cfg (snd (on_install cfg net s)))))) =
       {CACHE_NAME cfg}"
proof -
  have "CACHE_NAME cfg \<in> set (generation_names (caches (snd (on_install cfg net s))))"
    by (simp add: caches_on_install generation_names_put_all name_opened split: promise.splits)
  then have "set (generation_names (caches (snd (on_activate cfg (snd (on_install cfg net s)))))) =
       {CACHE_NAME cfg}"
    by (simp only: caches_on_activate names_filter_name)
  then show ?thesis
    by (simp add: caches_on_activate names_filter_name map_of_filter_name filter_name_distinct)
qed

theorem activate_collects_garbage_witness:
  "CACHE_NAME v2 \<in> set (generation_names (caches v1_v2))
   \<and> distinct (generation_names (caches v1_v2))
   \<and> map_of (caches v1_v2) (CACHE_NAME v2) = Some [(''/a.js'', \<lparr>status = 200, body = ''X''\<rparr>)]
   \<and> generation_names (caches v1_v2) = [''v1'', ''v2'']
   \<and> set (generation_names (caches (snd (on_activate v2 v1_v2)))) = {''v2''}
   \<and> caches (snd (on_activate v2 v1_v2)) = [(''v2'', [(''/a.js'', \<lparr>status = 200, body = ''X''\<rparr>)])]"
proof -
  have n: "generation_names (caches v1_v2) = [''v1'', ''v2'']"
    by (simp add: v1_v2_def generation_names_def)
  have t: "CACHE_NAME v2 = ''v2''"
    by (simp add: v2_def)
  have i: "CACHE_NAME v2 \<in> set (generation_names (caches v1_v2))"
    by (simp add: n t)
  have d: "distinct (generation_names (caches v1_v2))"
    by (simp add: n)
  have m: "map_of (caches v1_v2) (CACHE_NAME v2) = Some [(''/a.js'', \<lparr>status = 200, body = ''X''\<rparr>)]"
    by (simp add: v1_v2_def t)
  have "set (generation_names (caches (snd (on_activate v2 v1_v2)))) = {CACHE_NAME v2}
      \<and> caches (snd (on_activate v2 v1_v2)) =
          [(CACHE_NAME v2, [(''/a.js'', \<lparr>status = 200, body = ''X''\<rparr>)])]"
    using activate_collects_garbage [where cfg = v2 and s = v1_v2 and net = net_down] i d m
    by blast
  then have "set (generation_names (caches (snd (on_activate v2 v1_v2)))) = {''v2''}
      \<and> caches (snd (on_activate v2 v1_v2)) = [(''v2'', [(''/a.js'', \<lparr>status = 200, body = ''X''\<rparr>)])]"
    by (simp add: t generation_names_def)
  then show ?thesis using n i d m by blast
qed

end
